theory Spec2Isabelle
  imports Main "HOL-Library.Word"
begin

unbundle bit_operations_syntax

section \<open>ENCLS result encoding (driver/linux/encls.h)\<close>

text \<open>
  The C type \<open>int\<close> of the return codes is a 32-bit machine integer; \<open>sint\<close> reads it
  as the signed value the C code sees.  \<open>unsigned long\<close> and pointers are 64-bit.
\<close>

type_synonym c_int = "32 word"
type_synonym c_ulong = "64 word"

text \<open>\<open>enum sgx_encls_leaf\<close>, with the spelling of the header.\<close>

datatype sgx_encls_leaf =
    ECREATE | EADD | EINIT | EREMOVE | EDGBRD | EDGBWR | EEXTEND
  | ELDU | EBLOCK | EPA | EWB | ETRACK

fun leaf_nr :: "sgx_encls_leaf \<Rightarrow> c_int" where
  "leaf_nr ECREATE = 0x00"
| "leaf_nr EADD = 0x01"
| "leaf_nr EINIT = 0x02"
| "leaf_nr EREMOVE = 0x03"
| "leaf_nr EDGBRD = 0x04"
| "leaf_nr EDGBWR = 0x05"
| "leaf_nr EEXTEND = 0x06"
| "leaf_nr ELDU = 0x08"
| "leaf_nr EBLOCK = 0x09"
| "leaf_nr EPA = 0x0A"
| "leaf_nr EWB = 0x0B"
| "leaf_nr ETRACK = 0x0C"

definition ENCLS_FAULT_FLAG :: c_int where
  "ENCLS_FAULT_FLAG = 0x40000000"

definition ENCLS_TRAPNR :: "c_int \<Rightarrow> c_int" where
  "ENCLS_TRAPNR r = r AND NOT ENCLS_FAULT_FLAG"

text \<open>
  What \<open>encls_failed\<close> reads from outside the header: the CPU feature bit
  \<open>boot_cpu_has(X86_FEATURE_SGX2)\<close> and the two trap numbers of \<open>asm/traps.h\<close>.
  They are parameters of the model.
\<close>

record x86_platform =
  boot_cpu_has_SGX2 :: bool
  X86_TRAP_GP :: c_int
  X86_TRAP_PF :: c_int

definition epcm_trapnr :: "x86_platform \<Rightarrow> c_int" where
  "epcm_trapnr cpu = (if boot_cpu_has_SGX2 cpu then X86_TRAP_PF cpu else X86_TRAP_GP cpu)"

text \<open>\<open>bool fault = ret & ENCLS_FAULT_FLAG;\<close>: a non-zero int converts to true.\<close>

definition encls_fault :: "c_int \<Rightarrow> bool" where
  "encls_fault ret = (ret AND ENCLS_FAULT_FLAG \<noteq> 0)"

definition encls_failed :: "x86_platform \<Rightarrow> c_int \<Rightarrow> bool" where
  "encls_failed cpu ret =
     ((encls_fault ret \<and> ENCLS_TRAPNR ret \<noteq> epcm_trapnr cpu) \<or> (\<not> encls_fault ret \<and> ret \<noteq> 0))"


section \<open>The ENCLS instruction and its inline-assembly wrappers\<close>

text \<open>
  The instruction itself (\<open>.byte 0x0f, 0x01, 0xcf\<close>) is hardware.  From the point of view
  of the assembly block it either retires, leaving a value in EAX and one in RBX, or it
  raises an exception; in that case the exception table entry \<open>_ASM_EXTABLE_FAULT(1b, 3b)\<close>
  resumes at label 3 with the trap number in EAX.  The hardware is a parameter of the model:
  a function of the leaf number in EAX, the registers named as asm inputs and an opaque
  hardware state (the enclave page cache), which it returns updated.
\<close>

datatype asm_reg = RBX | RCX | RDX

type_synonym asm_inputs = "(asm_reg \<times> c_ulong) list"

datatype encls_outcome =
    Completed c_int c_ulong
  | Faulted c_int c_ulong

type_synonym 'h encls_hw = "c_int \<Rightarrow> asm_inputs \<Rightarrow> 'h \<Rightarrow> encls_outcome \<times> 'h"

text \<open>
  \<open>__encls_ret_N\<close>: EAX is returned as the instruction left it; the fixup path ORs
  \<open>ENCLS_FAULT_FLAG\<close> into it.  (The leading underscores of the C names are dropped.)
\<close>

definition encls_ret_N :: "'h encls_hw \<Rightarrow> c_int \<Rightarrow> asm_inputs \<Rightarrow> 'h \<Rightarrow> c_int \<times> 'h" where
  "encls_ret_N hw rax inputs h =
     (case hw rax inputs h of
        (Completed eax rbx, h') \<Rightarrow> (eax, h')
      | (Faulted eax rbx, h') \<Rightarrow> (eax OR ENCLS_FAULT_FLAG, h'))"

definition encls_ret_1 :: "'h encls_hw \<Rightarrow> c_int \<Rightarrow> c_ulong \<Rightarrow> 'h \<Rightarrow> c_int \<times> 'h" where
  "encls_ret_1 hw rax rcx = encls_ret_N hw rax [(RCX, rcx)]"

definition encls_ret_2 :: "'h encls_hw \<Rightarrow> c_int \<Rightarrow> c_ulong \<Rightarrow> c_ulong \<Rightarrow> 'h \<Rightarrow> c_int \<times> 'h" where
  "encls_ret_2 hw rax rbx rcx = encls_ret_N hw rax [(RBX, rbx), (RCX, rcx)]"

definition encls_ret_3 ::
  "'h encls_hw \<Rightarrow> c_int \<Rightarrow> c_ulong \<Rightarrow> c_ulong \<Rightarrow> c_ulong \<Rightarrow> 'h \<Rightarrow> c_int \<times> 'h" where
  "encls_ret_3 hw rax rbx rcx rdx = encls_ret_N hw rax [(RBX, rbx), (RCX, rcx), (RDX, rdx)]"

text \<open>
  \<open>__encls_N\<close>: after the instruction retires, \<open>xor %eax,%eax\<close> clears EAX; the fixup path
  is the same as above.  The result is the pair of the outputs \<open>"=a"(ret)\<close> and
  \<open>"=b"(rbx_out)\<close>.
\<close>

definition encls_N ::
  "'h encls_hw \<Rightarrow> c_int \<Rightarrow> asm_inputs \<Rightarrow> 'h \<Rightarrow> (c_int \<times> c_ulong) \<times> 'h" where
  "encls_N hw rax inputs h =
     (case hw rax inputs h of
        (Completed eax rbx, h') \<Rightarrow> ((eax XOR eax, rbx), h')
      | (Faulted eax rbx, h') \<Rightarrow> ((eax OR ENCLS_FAULT_FLAG, rbx), h'))"

text \<open>\<open>__encls_2\<close> ignores the RBX output.\<close>

definition encls_2 :: "'h encls_hw \<Rightarrow> c_int \<Rightarrow> c_ulong \<Rightarrow> c_ulong \<Rightarrow> 'h \<Rightarrow> c_int \<times> 'h" where
  "encls_2 hw rax rbx rcx h =
     (case encls_N hw rax [(RBX, rbx), (RCX, rcx)] h of ((ret, ign_rbx_out), h') \<Rightarrow> (ret, h'))"

text \<open>
  Kernel memory is needed only for the \<open>unsigned long\<close> that \<open>data\<close> points to in the two
  debug leaves: a store from addresses to values.
\<close>

type_synonym kmem = "c_ulong \<Rightarrow> c_ulong"

text \<open>
  \<open>__encls_1_1\<close> assigns the RBX output to the lvalue \<open>data\<close> only when \<open>ret\<close> is zero:
  \<open>if (!ret) data = rbx_out;\<close>.  The lvalue is given by its address in kernel memory.
\<close>

definition encls_1_1 ::
  "'h encls_hw \<Rightarrow> c_int \<Rightarrow> c_ulong \<Rightarrow> c_ulong \<Rightarrow> kmem \<Rightarrow> 'h \<Rightarrow> (c_int \<times> kmem) \<times> 'h" where
  "encls_1_1 hw rax data rcx mem h =
     (case encls_N hw rax [(RCX, rcx)] h of
        ((ret, rbx_out), h') \<Rightarrow> ((ret, if ret = 0 then mem(data := rbx_out) else mem), h'))"

subsection \<open>The leaf wrappers\<close>

text \<open>
  Pointers are 64-bit addresses.  Each wrapper takes the hardware and its state in
  addition to the arguments of the C function, and returns the updated hardware state
  beside the C result.
\<close>

definition ecreate :: "'h encls_hw \<Rightarrow> c_ulong \<Rightarrow> c_ulong \<Rightarrow> 'h \<Rightarrow> c_int \<times> 'h" where
  "ecreate hw pginfo secs = encls_2 hw (leaf_nr ECREATE) pginfo secs"

definition eextend :: "'h encls_hw \<Rightarrow> c_ulong \<Rightarrow> c_ulong \<Rightarrow> 'h \<Rightarrow> c_int \<times> 'h" where
  "eextend hw secs addr = encls_2 hw (leaf_nr EEXTEND) secs addr"

definition eadd :: "'h encls_hw \<Rightarrow> c_ulong \<Rightarrow> c_ulong \<Rightarrow> 'h \<Rightarrow> c_int \<times> 'h" where
  "eadd hw pginfo addr = encls_2 hw (leaf_nr EADD) pginfo addr"

definition einit :: "'h encls_hw \<Rightarrow> c_ulong \<Rightarrow> c_ulong \<Rightarrow> c_ulong \<Rightarrow> 'h \<Rightarrow> c_int \<times> 'h" where
  "einit hw sigstruct einittoken secs = encls_ret_3 hw (leaf_nr EINIT) sigstruct secs einittoken"

definition eremove :: "'h encls_hw \<Rightarrow> c_ulong \<Rightarrow> 'h \<Rightarrow> c_int \<times> 'h" where
  "eremove hw addr = encls_ret_1 hw (leaf_nr EREMOVE) addr"

text \<open>\<open>__edbgwr\<close> passes the value of \<open>*data\<close> in RBX.\<close>

definition edbgwr :: "'h encls_hw \<Rightarrow> c_ulong \<Rightarrow> c_ulong \<Rightarrow> kmem \<Rightarrow> 'h \<Rightarrow> c_int \<times> 'h" where
  "edbgwr hw addr data mem = encls_2 hw (leaf_nr EDGBWR) (mem data) addr"

text \<open>\<open>__edbgrd\<close> passes the lvalue \<open>*data\<close>; the updated kernel memory is returned.\<close>

definition edbgrd ::
  "'h encls_hw \<Rightarrow> c_ulong \<Rightarrow> c_ulong \<Rightarrow> kmem \<Rightarrow> 'h \<Rightarrow> (c_int \<times> kmem) \<times> 'h" where
  "edbgrd hw addr data mem = encls_1_1 hw (leaf_nr EDGBRD) data addr mem"

definition etrack :: "'h encls_hw \<Rightarrow> c_ulong \<Rightarrow> 'h \<Rightarrow> c_int \<times> 'h" where
  "etrack hw addr = encls_ret_1 hw (leaf_nr ETRACK) addr"

definition eldu :: "'h encls_hw \<Rightarrow> c_ulong \<Rightarrow> c_ulong \<Rightarrow> c_ulong \<Rightarrow> 'h \<Rightarrow> c_int \<times> 'h" where
  "eldu hw pginfo addr va = encls_ret_3 hw (leaf_nr ELDU) pginfo addr va"

definition eblock :: "'h encls_hw \<Rightarrow> c_ulong \<Rightarrow> 'h \<Rightarrow> c_int \<times> 'h" where
  "eblock hw addr = encls_ret_1 hw (leaf_nr EBLOCK) addr"

text \<open>\<open>SGX_PAGE_TYPE_VA\<close> comes from \<open>sgx.h\<close>; it is a parameter here.\<close>

definition epa :: "'h encls_hw \<Rightarrow> c_ulong \<Rightarrow> c_ulong \<Rightarrow> 'h \<Rightarrow> c_int \<times> 'h" where
  "epa hw SGX_PAGE_TYPE_VA addr = (let rbx = SGX_PAGE_TYPE_VA in encls_2 hw (leaf_nr EPA) rbx addr)"

definition ewb :: "'h encls_hw \<Rightarrow> c_ulong \<Rightarrow> c_ulong \<Rightarrow> c_ulong \<Rightarrow> 'h \<Rightarrow> c_int \<times> 'h" where
  "ewb hw pginfo addr va = encls_ret_3 hw (leaf_nr EWB) pginfo addr va"


subsection \<open>The result contracts, as the specification words them\<close>

text \<open>
  Status-returning leaves: the status code itself when the instruction retired (0 for
  success, positive otherwise, without the fault flag), or the flagged trap number.
\<close>

definition status_leaf_result :: "encls_outcome \<Rightarrow> c_int \<Rightarrow> bool" where
  "status_leaf_result out ret =
     (case out of
        Completed status rbx \<Rightarrow> ret = status \<and> (ret = 0 \<or> 0 < sint ret) \<and> \<not> encls_fault ret
      | Faulted trapnr rbx \<Rightarrow> ret = (ENCLS_FAULT_FLAG OR trapnr) \<and> encls_fault ret)"

text \<open>No-status leaves: zero when the instruction retired, or the flagged trap number.\<close>

definition no_status_leaf_result :: "encls_outcome \<Rightarrow> c_int \<Rightarrow> bool" where
  "no_status_leaf_result out ret =
     (case out of
        Completed status rbx \<Rightarrow> ret = 0
      | Faulted trapnr rbx \<Rightarrow> ret = (ENCLS_FAULT_FLAG OR trapnr) \<and> encls_fault ret)"

section \<open>Initialization retry policy (driver/linux/driver.h)\<close>

definition SGX_EINIT_SPIN_COUNT :: nat where
  "SGX_EINIT_SPIN_COUNT = 20"

definition SGX_EINIT_SLEEP_COUNT :: nat where
  "SGX_EINIT_SLEEP_COUNT = 50"

definition SGX_EINIT_SLEEP_TIME :: nat where
  "SGX_EINIT_SLEEP_TIME = 20"

text \<open>
  Modelled from the spec: the outcome of initialization as section 7 of the specification
  names it.  \<open>sgx_einit\<close> is only declared in \<open>encls.h\<close>; its body is not in the two
  headers.  \<open>InitFailed\<close> carries a result that is not transient contention.
\<close>

datatype init_error = InitRetriesExhausted | InitFailed c_int

text \<open>
  Modelled from the spec: what a run of \<open>sgx_einit\<close> leaves behind, so that the number of
  attempts and the time slept can be stated.
\<close>

record 'h einit_run =
  result :: "init_error + unit"
  attempts :: nat
  slept :: nat
  hw_after :: 'h

text \<open>
  Modelled from the spec: one bounded retry phase of \<open>sgx_einit\<close>.  At most \<open>budget\<close>
  attempts are made, each preceded by a pause of \<open>pause\<close> time units; a result that is not
  transient contention ends the phase.  \<open>n\<close> counts the attempts made so far and \<open>t\<close> the
  time slept so far.
\<close>

fun einit_retry ::
  "('h \<Rightarrow> c_int \<times> 'h) \<Rightarrow> (c_int \<Rightarrow> bool) \<Rightarrow> nat \<Rightarrow> nat \<Rightarrow> 'h \<Rightarrow> nat \<Rightarrow> nat
     \<Rightarrow> c_int option \<times> 'h \<times> nat \<times> nat" where
  "einit_retry attempt contended pause 0 h n t = (None, h, n, t)"
| "einit_retry attempt contended pause (Suc budget) h n t =
     (case attempt h of
        (ret, h') \<Rightarrow>
          if contended ret then einit_retry attempt contended pause budget h' (Suc n) (t + pause)
          else (Some ret, h', Suc n, t + pause))"

text \<open>
  Modelled from the spec: how \<open>sgx_einit\<close> reports a result that ended a retry phase.
\<close>

definition einit_finish :: "c_int \<Rightarrow> 'h \<Rightarrow> nat \<Rightarrow> nat \<Rightarrow> 'h einit_run" where
  "einit_finish ret h n t =
     \<lparr>result = (if ret = 0 then Inr () else Inl (InitFailed ret)),
      attempts = n, slept = t, hw_after = h\<rparr>"

text \<open>
  Modelled from the spec: the body of \<open>sgx_einit\<close>, of which \<open>encls.h\<close> only holds the
  declaration.  Following section 4.2 of the specification, a busy-spin phase of
  \<open>SGX_EINIT_SPIN_COUNT\<close> attempts is followed by a phase of \<open>SGX_EINIT_SLEEP_COUNT\<close>
  attempts with a sleep of \<open>SGX_EINIT_SLEEP_TIME\<close> before each; every attempt is one call
  of \<open>__einit\<close>.  Which status codes mean transient contention is hardware-defined
  (section 9), hence the parameter \<open>contended\<close>.  The key hash argument plays no part in
  the retry policy.
\<close>

definition sgx_einit ::
  "'h encls_hw \<Rightarrow> (c_int \<Rightarrow> bool) \<Rightarrow> c_ulong \<Rightarrow> c_ulong \<Rightarrow> c_ulong \<Rightarrow> c_ulong \<Rightarrow> 'h
     \<Rightarrow> 'h einit_run" where
  "sgx_einit hw contended sigstruct token secs lepubkeyhash h =
     (let attempt = einit hw sigstruct token secs in
      case einit_retry attempt contended 0 SGX_EINIT_SPIN_COUNT h 0 0 of
        (Some ret, h1, n1, t1) \<Rightarrow> einit_finish ret h1 n1 t1
      | (None, h1, n1, t1) \<Rightarrow>
          (case einit_retry attempt contended SGX_EINIT_SLEEP_TIME SGX_EINIT_SLEEP_COUNT h1 n1 t1 of
             (Some ret, h2, n2, t2) \<Rightarrow> einit_finish ret h2 n2 t2
           | (None, h2, n2, t2) \<Rightarrow>
               \<lparr>result = Inl InitRetriesExhausted, attempts = n2, slept = t2, hw_after = h2\<rparr>))"

text \<open>
  The hardware state after \<open>k\<close> consecutive attempts, and what attempt number \<open>k\<close>
  (counted from 0) returns: this is how a run of consecutive contention failures is
  described.
\<close>

fun after_attempts :: "('h \<Rightarrow> c_int \<times> 'h) \<Rightarrow> nat \<Rightarrow> 'h \<Rightarrow> 'h" where
  "after_attempts attempt 0 h = h"
| "after_attempts attempt (Suc k) h = after_attempts attempt k (snd (attempt h))"

definition attempt_ret :: "('h \<Rightarrow> c_int \<times> 'h) \<Rightarrow> nat \<Rightarrow> 'h \<Rightarrow> c_int" where
  "attempt_ret attempt k h = fst (attempt (after_attempts attempt k h))"

section \<open>Page lifecycle: block, track, acknowledge, evict\<close>

text \<open>
  The page lifecycle controller is not part of the two headers, which end at the leaf
  wrappers \<open>__eblock\<close>, \<open>__etrack\<close> and \<open>__ewb\<close>.  The definitions of this section follow
  sections 3, 4.2, 5 and 7 of the specification.
\<close>

text \<open>Modelled from the spec: the lifecycle states of a page (section 4.2).\<close>

datatype page_state = Free | Added | Blocked | Tracked | Evicted

text \<open>Modelled from the spec: why the controller rejects an operation (section 7).\<close>

datatype lifecycle_error = InvalidTransition | EpochNotAcknowledged | ResourceExhausted

text \<open>
  Modelled from the spec: the state of the controller.  It holds the lifecycle state of
  every page, the process-wide tracking epoch, for every page the epoch that its most
  recent track advanced to, for every processor the last epoch it has acknowledged in a
  shootdown pass, the processors of the system (translations are not enclave-scoped, so
  every processor may hold a stale one) and the number of free version slots.
\<close>

record lifecycle =
  page_states :: "nat \<Rightarrow> page_state"
  epoch :: nat
  track_epoch :: "nat \<Rightarrow> nat"
  cpu_ack :: "nat \<Rightarrow> nat"
  cpus :: "nat list"
  free_slots :: nat

text \<open>Modelled from the spec: block takes a resident page to \<open>Blocked\<close>.\<close>

definition block :: "lifecycle \<Rightarrow> nat \<Rightarrow> (lifecycle_error + unit) \<times> lifecycle" where
  "block s p =
     (if page_states s p = Added
      then (Inr (), s\<lparr>page_states := (page_states s)(p := Blocked)\<rparr>)
      else (Inl InvalidTransition, s))"

text \<open>
  Modelled from the spec: track takes a blocked page to \<open>Tracked\<close> and advances the
  tracking epoch; it does not by itself make eviction safe.
\<close>

definition track :: "lifecycle \<Rightarrow> nat \<Rightarrow> (lifecycle_error + unit) \<times> lifecycle" where
  "track s p =
     (if page_states s p = Blocked
      then (Inr (), s\<lparr>page_states := (page_states s)(p := Tracked),
                       epoch := Suc (epoch s),
                       track_epoch := (track_epoch s)(p := Suc (epoch s))\<rparr>)
      else (Inl InvalidTransition, s))"

text \<open>
  Modelled from the spec: processor \<open>c\<close> acknowledges the current epoch in a shootdown
  pass.
\<close>

definition shootdown_ack :: "lifecycle \<Rightarrow> nat \<Rightarrow> lifecycle" where
  "shootdown_ack s c = s\<lparr>cpu_ack := (cpu_ack s)(c := epoch s)\<rparr>"

text \<open>
  Modelled from the spec: every processor has acknowledged the epoch that the most recent
  track on page \<open>p\<close> advanced to.
\<close>

definition acknowledged :: "lifecycle \<Rightarrow> nat \<Rightarrow> bool" where
  "acknowledged s p = list_all (\<lambda>c. track_epoch s p \<le> cpu_ack s c) (cpus s)"

text \<open>
  Modelled from the spec: evict (write-back) takes a tracked page to \<open>Evicted\<close> once the
  shootdown is complete, and consumes a version slot.  A rejection returns the state as
  it was.
\<close>

definition evict :: "lifecycle \<Rightarrow> nat \<Rightarrow> (lifecycle_error + unit) \<times> lifecycle" where
  "evict s p =
     (if page_states s p \<noteq> Tracked then (Inl InvalidTransition, s)
      else if \<not> acknowledged s p then (Inl EpochNotAcknowledged, s)
      else if free_slots s = 0 then (Inl ResourceExhausted, s)
      else (Inr (), s\<lparr>page_states := (page_states s)(p := Evicted),
                       free_slots := free_slots s - 1\<rparr>))"

section \<open>Example inputs\<close>

text \<open>
  A hardware on which EWB reports status 11, EREMOVE faults with trap 14, and EDBGRD
  reads the word \<open>0xABCD\<close> at enclave address \<open>0x1000\<close> and faults with trap 13 elsewhere.
  The hardware state counts the instructions issued.
\<close>

definition example_hw :: "nat encls_hw" where
  "example_hw rax inputs h =
     (if rax = leaf_nr EWB then (Completed 11 0, Suc h)
      else if rax = leaf_nr EREMOVE then (Faulted 14 0, Suc h)
      else if rax = leaf_nr EDGBRD \<and> inputs = [(RCX, 0x1000)] then (Completed 4 0xABCD, Suc h)
      else if rax = leaf_nr EDGBRD then (Faulted 13 0x77, Suc h)
      else (Completed 0 0, Suc h))"

text \<open>
  A hardware on which the first \<open>failures\<close> EINIT instructions report status 128 and every
  later one succeeds.
\<close>

definition busy_hw :: "nat \<Rightarrow> nat encls_hw" where
  "busy_hw failures rax inputs h =
     (if rax = leaf_nr EINIT \<and> h < failures then (Completed 128 0, Suc h)
      else (Completed 0 0, Suc h))"

text \<open>Two processors, both up to date with epoch 3; page 0 is blocked.\<close>

definition example_lifecycle :: lifecycle where
  "example_lifecycle =
     \<lparr>page_states = (\<lambda>p. if p = 0 then Blocked else Added), epoch = 3,
      track_epoch = (\<lambda>p. 0), cpu_ack = (\<lambda>c. 3), cpus = [0, 1], free_slots = 4\<rparr>"


section \<open>Bits of the result encoding\<close>

lemma flag_push: "ENCLS_FAULT_FLAG = push_bit 30 1"
  unfolding ENCLS_FAULT_FLAG_def by simp

lemma flag_bit: "bit ENCLS_FAULT_FLAG n \<longleftrightarrow> n = 30"
  unfolding flag_push bit_push_bit_iff bit_1_iff by (auto simp add: possible_bit_word)

lemma and_flag_zero: "r AND ENCLS_FAULT_FLAG = 0 \<longleftrightarrow> \<not> bit r 30"
proof
  assume "r AND ENCLS_FAULT_FLAG = 0"
  then have "\<not> bit (r AND ENCLS_FAULT_FLAG) 30" by simp
  then show "\<not> bit r 30" by (simp add: bit_and_iff flag_bit)
next
  assume "\<not> bit r 30"
  then show "r AND ENCLS_FAULT_FLAG = 0"
    by (intro bit_eqI) (auto simp add: bit_and_iff flag_bit)
qed

lemma encls_fault_bit: "encls_fault r = bit r 30"
  by (simp add: encls_fault_def and_flag_zero)

lemma trapnr_bit: "bit (ENCLS_TRAPNR r) n \<longleftrightarrow> bit r n \<and> n \<noteq> 30"
  unfolding ENCLS_TRAPNR_def bit_and_iff bit_not_iff flag_bit by (auto dest: bit_imp_le_length simp add: possible_bit_word)

lemma or_flag_bit: "bit (t OR ENCLS_FAULT_FLAG) n \<longleftrightarrow> bit t n \<or> n = 30"
  unfolding bit_or_iff flag_bit by simp

lemma trapnr_roundtrip: "\<not> bit t 30 \<Longrightarrow> ENCLS_TRAPNR (t OR ENCLS_FAULT_FLAG) = t"
  by (rule bit_eqI) (auto simp add: trapnr_bit or_flag_bit)

lemma bit30_sint: "bit (s :: c_int) 30 \<longleftrightarrow> odd (sint s div 2 ^ 30)"
proof -
  have "bit (sint s) 30 \<longleftrightarrow> bit s 30" by (simp add: bit_sint_iff)
  then show ?thesis by (simp add: bit_iff_odd)
qed

lemma small_no_bit30: 
  fixes s :: c_int
  assumes "0 \<le> sint s" "sint s < 2 ^ 30" shows "\<not> bit s 30"
proof -
  have "sint s div 2 ^ 30 = 0" using assms by simp
  then show ?thesis by (simp add: bit30_sint)
qed

lemma neg_bits:
  fixes r :: c_int
  assumes "sint r < 0" "- (2 ^ 30) < sint r" shows "bit r 30 \<and> bit r 31"
proof -
  have "sint r div 2 ^ 30 < 0" using assms(1) by (simp add: div_neg_pos_less0)
  moreover have "(- (2 ^ 30)) div 2 ^ 30 \<le> sint r div 2 ^ 30"
    using assms(2) by (intro zdiv_mono1) simp_all
  ultimately have "sint r div 2 ^ 30 = - 1" by simp
  then have "bit r 30" by (simp add: bit30_sint)
  moreover have "bit r 31" using assms(1) bit_last_iff [of r] by simp
  ultimately show ?thesis by simp
qed

lemma nonneg_bit31: "0 \<le> sint (t::c_int) \<longleftrightarrow> \<not> bit t 31"
  using bit_last_iff [of t] by (simp add: not_less)

lemma or_flag_commute: "ENCLS_FAULT_FLAG OR t = t OR ENCLS_FAULT_FLAG"
  by (simp add: or.commute)

lemma fault_or_flag: "encls_fault (t OR ENCLS_FAULT_FLAG)"
  by (simp add: encls_fault_bit or_flag_bit)

lemma or_flag_nonzero: "t OR ENCLS_FAULT_FLAG \<noteq> 0"
proof
  assume "t OR ENCLS_FAULT_FLAG = 0"
  then have "\<not> bit (t OR ENCLS_FAULT_FLAG) 30" by simp
  then show False by (simp add: or_flag_bit)
qed

section \<open>The assembly wrappers meet their contracts\<close>

lemma encls_ret_N_contract:
  assumes "\<And>s b h'. hw rax ins h = (Completed s b, h') \<Longrightarrow> 0 \<le> sint s \<and> sint s < 2 ^ 30"
  shows "status_leaf_result (fst (hw rax ins h)) (fst (encls_ret_N hw rax ins h))"
proof (cases "hw rax ins h")
  case (Pair out h')
  show ?thesis
  proof (cases out)
    case (Completed s b)
    with Pair assms have r: "0 \<le> sint s" "sint s < 2 ^ 30" by simp_all
    then have "\<not> encls_fault s" by (simp add: encls_fault_bit small_no_bit30)
    moreover have "s = 0 \<or> 0 < sint s" using r(1) by (cases "s = 0") (simp_all add: order_less_le signed_eq_0_iff)
    ultimately show ?thesis using Pair Completed
      by (simp add: encls_ret_N_def status_leaf_result_def)
  next
    case (Faulted t b)
    then show ?thesis using Pair
      by (simp add: encls_ret_N_def status_leaf_result_def fault_or_flag or_flag_commute)
  qed
qed

lemma encls_N_contract:
  "no_status_leaf_result (fst (hw rax ins h)) (fst (fst (encls_N hw rax ins h)))"
proof (cases "hw rax ins h")
  case (Pair out h')
  then show ?thesis
    by (cases out)
       (simp_all add: encls_N_def no_status_leaf_result_def fault_or_flag or_flag_commute)
qed

lemma encls_2_ret: "fst (encls_2 hw rax rbx rcx h) = fst (fst (encls_N hw rax [(RBX, rbx), (RCX, rcx)] h))"
  by (simp add: encls_2_def split: prod.splits)

lemma edbgrd_ret: "fst (fst (edbgrd hw addr data mem h)) = fst (fst (encls_N hw (leaf_nr EDGBRD) [(RCX, addr)] h))"
  by (simp add: edbgrd_def encls_1_1_def split: prod.splits)

lemma no_status_zero_or_fault: "no_status_leaf_result out ret \<Longrightarrow> ret = 0 \<or> encls_fault ret"
  by (cases out) (auto simp add: no_status_leaf_result_def)

lemma edbgrd_cases:
  "(\<exists>eax rbx h'. hw (leaf_nr EDGBRD) [(RCX, addr)] h = (Completed eax rbx, h')
        \<and> edbgrd hw addr data mem h = ((0, mem(data := rbx)), h'))
   \<or> (\<exists>t rbx h'. hw (leaf_nr EDGBRD) [(RCX, addr)] h = (Faulted t rbx, h')
        \<and> edbgrd hw addr data mem h = ((t OR ENCLS_FAULT_FLAG, mem), h'))"
proof (cases "hw (leaf_nr EDGBRD) [(RCX, addr)] h")
  case (Pair out h')
  show ?thesis
  proof (cases out)
    case (Completed eax rbx)
    with Pair show ?thesis by (simp add: edbgrd_def encls_1_1_def encls_N_def)
  next
    case (Faulted t rbx)
    with Pair or_flag_nonzero [of t] show ?thesis by (simp add: edbgrd_def encls_1_1_def encls_N_def)
  qed
qed

section \<open>The retry phases\<close>

lemma after_attempts_Suc:
  "after_attempts att (Suc k) h = snd (att (after_attempts att k h))"
  by (induction k arbitrary: h) simp_all

lemma after_attempts_add:
  "after_attempts att (j + k) h = after_attempts att k (after_attempts att j h)"
  by (induction j arbitrary: h) simp_all

lemma attempt_ret_0: "attempt_ret att 0 h = fst (att h)"
  by (simp add: attempt_ret_def)

lemma attempt_ret_Suc: "attempt_ret att (Suc k) h = attempt_ret att k (snd (att h))"
  by (simp add: attempt_ret_def)

lemma attempt_ret_add:
  "attempt_ret att k (after_attempts att j h) = attempt_ret att (j + k) h"
  by (simp add: attempt_ret_def after_attempts_add)

lemma einit_retry_exhausted:
  assumes "\<forall>k<budget. contended (attempt_ret att k h)"
  shows "einit_retry att contended pause budget h n t
           = (None, after_attempts att budget h, n + budget, t + pause * budget)"
  using assms
proof (induction budget arbitrary: h n t)
  case 0
  then show ?case by simp
next
  case (Suc budget)
  obtain ret h' where a: "att h = (ret, h')" by (cases "att h")
  from Suc.prems have "contended (attempt_ret att 0 h)" by blast
  with a have c: "contended ret" by (simp add: attempt_ret_0)
  have "\<forall>k<budget. contended (attempt_ret att k h')"
  proof (intro allI impI)
    fix k assume "k < budget"
    with Suc.prems have "contended (attempt_ret att (Suc k) h)" by simp
    with a show "contended (attempt_ret att k h')" by (simp add: attempt_ret_Suc)
  qed
  from Suc.IH [OF this] a c show ?case by simp
qed

lemma einit_retry_done:
  assumes "\<forall>k<N. contended (attempt_ret att k h)"
    and "\<not> contended (attempt_ret att N h)" and "N < budget"
  shows "einit_retry att contended pause budget h n t
           = (Some (attempt_ret att N h), after_attempts att (Suc N) h,
              n + Suc N, t + pause * Suc N)"
  using assms
proof (induction budget arbitrary: h n t N)
  case 0
  then show ?case by simp
next
  case (Suc budget)
  obtain ret h' where a: "att h = (ret, h')" by (cases "att h")
  show ?case
  proof (cases N)
    case 0
    with Suc.prems(2) a have "\<not> contended ret" by (simp add: attempt_ret_0)
    with a 0 show ?thesis by (simp add: attempt_ret_0)
  next
    case (Suc M)
    from Suc.prems(1) Suc have "contended (attempt_ret att 0 h)" by blast
    with a have c: "contended ret" by (simp add: attempt_ret_0)
    have p1: "\<forall>k<M. contended (attempt_ret att k h')"
    proof (intro allI impI)
      fix k assume "k < M"
      with Suc.prems(1) Suc have "contended (attempt_ret att (Suc k) h)" by simp
      with a show "contended (attempt_ret att k h')" by (simp add: attempt_ret_Suc)
    qed
    have p2: "\<not> contended (attempt_ret att M h')"
      using Suc.prems(2) Suc a by (simp add: attempt_ret_Suc)
    have p3: "M < budget" using Suc.prems(3) Suc by simp
    from Suc.IH [OF p1 p2 p3] a c Suc show ?thesis by (simp add: attempt_ret_Suc)
  qed
qed

lemma sgx_einit_success:
  assumes run: "\<forall>k<N. contended (attempt_ret (einit hw sigstruct token secs) k h)"
    and ok: "attempt_ret (einit hw sigstruct token secs) N h = 0"
    and nc: "\<not> contended 0"
    and N: "N < SGX_EINIT_SPIN_COUNT + SGX_EINIT_SLEEP_COUNT"
  shows "sgx_einit hw contended sigstruct token secs lepubkeyhash h
           = \<lparr>result = Inr (), attempts = Suc N,
              slept = SGX_EINIT_SLEEP_TIME * (Suc N - SGX_EINIT_SPIN_COUNT),
              hw_after = after_attempts (einit hw sigstruct token secs) (Suc N) h\<rparr>"
proof -
  let ?att = "einit hw sigstruct token secs"
  from ok nc have nc': "\<not> contended (attempt_ret ?att N h)" by simp
  show ?thesis
  proof (cases "N < SGX_EINIT_SPIN_COUNT")
    case True
    from einit_retry_done [OF run nc' True, of 0 0 0] ok True show ?thesis
      by (simp add: sgx_einit_def einit_finish_def Let_def)
  next
    case False
    define M where "M = N - SGX_EINIT_SPIN_COUNT"
    have NM: "N = SGX_EINIT_SPIN_COUNT + M" using False by (simp add: M_def)
    have "\<forall>k<SGX_EINIT_SPIN_COUNT. contended (attempt_ret ?att k h)"
      using run False by simp
    note spin = einit_retry_exhausted [OF this, of 0 0 0]
    let ?h1 = "after_attempts ?att SGX_EINIT_SPIN_COUNT h"
    have q1: "\<forall>k<M. contended (attempt_ret ?att k ?h1)"
      using run by (simp add: attempt_ret_add NM)
    have q2: "\<not> contended (attempt_ret ?att M ?h1)"
      using nc' by (simp add: attempt_ret_add NM)
    have q3: "M < SGX_EINIT_SLEEP_COUNT" using N NM by simp
    note sleep = einit_retry_done [OF q1 q2 q3, of SGX_EINIT_SLEEP_TIME SGX_EINIT_SPIN_COUNT 0]
    have r: "attempt_ret ?att M ?h1 = 0" using ok by (simp add: attempt_ret_add NM)
    have h: "after_attempts ?att (Suc M) ?h1 = after_attempts ?att (Suc N) h"
      by (simp only: NM add_Suc_right [symmetric] after_attempts_add)
    show ?thesis
      unfolding sgx_einit_def Let_def spin
      by (simp add: sleep r h einit_finish_def del: after_attempts.simps) (simp add: NM)
  qed
qed

lemma sgx_einit_exhausted:
  assumes run: "\<forall>k<SGX_EINIT_SPIN_COUNT + SGX_EINIT_SLEEP_COUNT.
                  contended (attempt_ret (einit hw sigstruct token secs) k h)"
  shows "sgx_einit hw contended sigstruct token secs lepubkeyhash h
           = \<lparr>result = Inl InitRetriesExhausted,
              attempts = SGX_EINIT_SPIN_COUNT + SGX_EINIT_SLEEP_COUNT,
              slept = SGX_EINIT_SLEEP_TIME * SGX_EINIT_SLEEP_COUNT,
              hw_after = after_attempts (einit hw sigstruct token secs)
                           (SGX_EINIT_SPIN_COUNT + SGX_EINIT_SLEEP_COUNT) h\<rparr>"
proof -
  let ?att = "einit hw sigstruct token secs"
  have "\<forall>k<SGX_EINIT_SPIN_COUNT. contended (attempt_ret ?att k h)"
    using run by simp
  note spin = einit_retry_exhausted [OF this, of 0 0 0]
  let ?h1 = "after_attempts ?att SGX_EINIT_SPIN_COUNT h"
  have "\<forall>k<SGX_EINIT_SLEEP_COUNT. contended (attempt_ret ?att k ?h1)"
    using run by (simp add: attempt_ret_add)
  note sleep = einit_retry_exhausted [OF this, of SGX_EINIT_SLEEP_TIME SGX_EINIT_SPIN_COUNT 0]
  show ?thesis
    unfolding sgx_einit_def Let_def spin
    by (simp add: sleep after_attempts_add)
qed

lemma einit_busy_hw:
  "einit (busy_hw f) a b c h = (if h < f then 128 else 0, Suc h)"
  by (simp add: einit_def encls_ret_3_def encls_ret_N_def busy_hw_def)

lemma after_attempts_busy_hw:
  "after_attempts (einit (busy_hw f) a b c) k h = h + k"
  by (induction k arbitrary: h) (simp_all add: einit_busy_hw)

lemma attempt_ret_busy_hw:
  "attempt_ret (einit (busy_hw f) a b c) k h = (if h + k < f then 128 else 0)"
  by (simp add: attempt_ret_def after_attempts_busy_hw einit_busy_hw)

section \<open>Shootdown acknowledgment\<close>

lemma foldl_ack_fields:
  "page_states (foldl shootdown_ack s cs) = page_states s
   \<and> epoch (foldl shootdown_ack s cs) = epoch s
   \<and> track_epoch (foldl shootdown_ack s cs) = track_epoch s
   \<and> cpus (foldl shootdown_ack s cs) = cpus s"
  by (induction cs arbitrary: s) (simp_all add: shootdown_ack_def)

lemma foldl_ack_cpu:
  "cpu_ack (foldl shootdown_ack s cs) c = (if c \<in> set cs then epoch s else cpu_ack s c)"
proof (induction cs arbitrary: s)
  case Nil
  then show ?case by simp
next
  case (Cons a cs)
  have "epoch (shootdown_ack s a) = epoch s" by (simp add: shootdown_ack_def)
  with Cons [of "shootdown_ack s a"] show ?case by (simp add: shootdown_ack_def)
qed

lemma acknowledged_after_shootdown:
  assumes "track_epoch s p \<le> epoch s"
  shows "acknowledged (foldl shootdown_ack s (cpus s)) p"
  using assms by (simp add: acknowledged_def list_all_iff foldl_ack_fields foldl_ack_cpu)

section \<open>The claims\<close>

text \<open>
  Claim C1.  For every raw ENCLS result \<open>r\<close>, \<open>encls_failed\<close> is true exactly when either
  \<open>r\<close> has \<open>ENCLS_FAULT_FLAG\<close> set and its encoded trap number differs from the benign
  trap number (the page-fault trap when the CPU has SGX2, the general-protection trap
  otherwise), or \<open>r\<close> has the flag clear and is non-zero.  In particular
  \<open>encls_failed 0\<close> is false.
\<close>

theorem encls_failed_iff:
  "(encls_failed cpu r \<longleftrightarrow>
      (r AND ENCLS_FAULT_FLAG = ENCLS_FAULT_FLAG
         \<and> ENCLS_TRAPNR r \<noteq> (if boot_cpu_has_SGX2 cpu then X86_TRAP_PF cpu else X86_TRAP_GP cpu))
      \<or> (r AND ENCLS_FAULT_FLAG = 0 \<and> r \<noteq> 0))
   \<and> \<not> encls_failed cpu 0"
proof -
  have set: "r AND ENCLS_FAULT_FLAG = ENCLS_FAULT_FLAG \<longleftrightarrow> bit r 30"
  proof
    assume "r AND ENCLS_FAULT_FLAG = ENCLS_FAULT_FLAG"
    then have "bit (r AND ENCLS_FAULT_FLAG) 30" by (simp add: flag_bit)
    then show "bit r 30" by (simp add: bit_and_iff)
  next
    assume "bit r 30"
    then show "r AND ENCLS_FAULT_FLAG = ENCLS_FAULT_FLAG"
      by (intro bit_eqI) (auto simp add: bit_and_iff flag_bit)
  qed
  have "\<not> encls_fault 0" by (simp add: encls_fault_def)
  then show ?thesis
    by (simp add: encls_failed_def epcm_trapnr_def set and_flag_zero encls_fault_bit)
qed

theorem encls_failed_iff_witness:
  "encls_failed \<lparr>boot_cpu_has_SGX2 = True, X86_TRAP_GP = 13, X86_TRAP_PF = 14\<rparr> 0x4000000D
   \<and> \<not> encls_failed \<lparr>boot_cpu_has_SGX2 = True, X86_TRAP_GP = 13, X86_TRAP_PF = 14\<rparr> 0x4000000E
   \<and> encls_failed \<lparr>boot_cpu_has_SGX2 = False, X86_TRAP_GP = 13, X86_TRAP_PF = 14\<rparr> 0x4000000E
   \<and> encls_failed \<lparr>boot_cpu_has_SGX2 = False, X86_TRAP_GP = 13, X86_TRAP_PF = 14\<rparr> 11"
  using encls_failed_iff [of "\<lparr>boot_cpu_has_SGX2 = True, X86_TRAP_GP = 13, X86_TRAP_PF = 14\<rparr>" "0x4000000D"]
        encls_failed_iff [of "\<lparr>boot_cpu_has_SGX2 = True, X86_TRAP_GP = 13, X86_TRAP_PF = 14\<rparr>" "0x4000000E"]
        encls_failed_iff [of "\<lparr>boot_cpu_has_SGX2 = False, X86_TRAP_GP = 13, X86_TRAP_PF = 14\<rparr>" "0x4000000E"]
        encls_failed_iff [of "\<lparr>boot_cpu_has_SGX2 = False, X86_TRAP_GP = 13, X86_TRAP_PF = 14\<rparr>" "11"]
  by (simp add: ENCLS_FAULT_FLAG_def ENCLS_TRAPNR_def)

text \<open>
  Claim C2.  Evict succeeds only on a tracked page whose tracking epoch every processor
  has acknowledged.  Invoked on a tracked page without that acknowledgment it is rejected
  with \<open>EpochNotAcknowledged\<close> and the state, hence the page's state \<open>Tracked\<close>, is left
  as it was.  In particular evict right after track, with at least one processor and no
  shootdown acknowledgment, is rejected; once every processor has acknowledged, the page
  counts as acknowledged.
\<close>

theorem evict_requires_acknowledged_epoch:
  "(fst (evict s p) = Inr () \<longrightarrow> page_states s p = Tracked \<and> acknowledged s p)
   \<and> (page_states s p = Tracked \<and> \<not> acknowledged s p \<longrightarrow>
        evict s p = (Inl EpochNotAcknowledged, s) \<and> page_states (snd (evict s p)) p = Tracked)
   \<and> (page_states s p = Blocked \<and> cpus s \<noteq> [] \<and> (\<forall>c \<in> set (cpus s). cpu_ack s c \<le> epoch s) \<longrightarrow>
        evict (snd (track s p)) p = (Inl EpochNotAcknowledged, snd (track s p))
        \<and> page_states (snd (track s p)) p = Tracked
        \<and> acknowledged (foldl shootdown_ack (snd (track s p)) (cpus s)) p)"
proof -
  have 1: "fst (evict s p) = Inr () \<longrightarrow> page_states s p = Tracked \<and> acknowledged s p"
    by (simp add: evict_def split: if_splits)
  have 2: "page_states s p = Tracked \<and> \<not> acknowledged s p \<longrightarrow>
        evict s p = (Inl EpochNotAcknowledged, s) \<and> page_states (snd (evict s p)) p = Tracked"
    by (simp add: evict_def)
  have 3: "evict (snd (track s p)) p = (Inl EpochNotAcknowledged, snd (track s p))
        \<and> page_states (snd (track s p)) p = Tracked
        \<and> acknowledged (foldl shootdown_ack (snd (track s p)) (cpus s)) p"
    if b: "page_states s p = Blocked" and ne: "cpus s \<noteq> []"
      and wf: "\<forall>c \<in> set (cpus s). cpu_ack s c \<le> epoch s"
  proof -
    let ?s = "snd (track s p)"
    have t: "page_states ?s p = Tracked" "track_epoch ?s p = Suc (epoch s)" "cpus ?s = cpus s"
      "cpu_ack ?s = cpu_ack s" "epoch ?s = Suc (epoch s)"
      using b by (simp_all add: track_def)
    from ne obtain c where "c \<in> set (cpus s)" by (cases "cpus s") auto
    with wf have "c \<in> set (cpus ?s)" "\<not> track_epoch ?s p \<le> cpu_ack ?s c"
      by (auto simp add: t)
    then have na: "\<not> acknowledged ?s p" by (auto simp add: acknowledged_def list_all_iff)
    have "acknowledged (foldl shootdown_ack ?s (cpus ?s)) p"
      by (rule acknowledged_after_shootdown) (simp add: t)
    with na t show ?thesis by (simp add: evict_def)
  qed
  from 1 2 3 show ?thesis by blast
qed

theorem evict_requires_acknowledged_epoch_witness:
  "page_states example_lifecycle 0 = Blocked
   \<and> evict (snd (track example_lifecycle 0)) 0 = (Inl EpochNotAcknowledged, snd (track example_lifecycle 0))
   \<and> page_states (snd (track example_lifecycle 0)) 0 = Tracked
   \<and> fst (evict (foldl shootdown_ack (snd (track example_lifecycle 0)) [0, 1]) 0) = Inr ()"
proof -
  have a: "page_states example_lifecycle 0 = Blocked" by (simp add: example_lifecycle_def)
  have b: "cpus example_lifecycle \<noteq> []" by (simp add: example_lifecycle_def)
  have c: "\<forall>c \<in> set (cpus example_lifecycle). cpu_ack example_lifecycle c \<le> epoch example_lifecycle"
    by (simp add: example_lifecycle_def)
  have d: "fst (evict (foldl shootdown_ack (snd (track example_lifecycle 0)) [0, 1]) 0) = Inr ()"
    by (simp add: example_lifecycle_def track_def shootdown_ack_def evict_def acknowledged_def)
  from evict_requires_acknowledged_epoch [of example_lifecycle 0] a b c d show ?thesis by blast
qed

text \<open>
  Claim C3.  The encodings never collide: for a trap number \<open>t\<close> with bit 30 clear and a
  positive status code \<open>s\<close> below \<open>2 ^ 30\<close>, the fault encoding \<open>t OR ENCLS_FAULT_FLAG\<close>
  differs from \<open>s\<close> and from 0, and the test of the flag bit \<open>0x40000000\<close> is true on the
  fault encoding and false on \<open>s\<close> and on 0.
\<close>

theorem fault_encoding_no_collision:
  fixes t s :: c_int
  assumes "\<not> bit t 30" and "0 < sint s" and "sint s < 2 ^ 30"
  shows "(t OR ENCLS_FAULT_FLAG) \<noteq> s \<and> (t OR ENCLS_FAULT_FLAG) \<noteq> 0
         \<and> encls_fault (t OR ENCLS_FAULT_FLAG) \<and> \<not> encls_fault s \<and> \<not> encls_fault 0
         \<and> ENCLS_FAULT_FLAG = 0x40000000"
proof -
  have f: "encls_fault (t OR ENCLS_FAULT_FLAG)" by (simp add: encls_fault_bit or_flag_bit)
  have s: "\<not> encls_fault s" using assms(2,3) by (simp add: encls_fault_bit small_no_bit30)
  have z: "\<not> encls_fault 0" by (simp add: encls_fault_def)
  from f s have "(t OR ENCLS_FAULT_FLAG) \<noteq> s" by metis
  moreover from f z have "(t OR ENCLS_FAULT_FLAG) \<noteq> 0" by metis
  ultimately show ?thesis using f s z by (simp add: ENCLS_FAULT_FLAG_def)
qed

theorem fault_encoding_no_collision_witness:
  "\<not> bit (14 :: c_int) 30 \<and> 0 < sint (11 :: c_int) \<and> sint (11 :: c_int) < 2 ^ 30
   \<and> (14 OR ENCLS_FAULT_FLAG) \<noteq> (11 :: c_int) \<and> encls_fault (14 OR ENCLS_FAULT_FLAG)
   \<and> \<not> encls_fault 11"
proof -
  have a: "\<not> bit (14 :: c_int) 30" by simp
  have b: "0 < sint (11 :: c_int)" by simp
  have c: "sint (11 :: c_int) < 2 ^ 30" by simp
  show ?thesis using a b c fault_encoding_no_collision [OF a b c] by simp
qed

text \<open>
  Claim C4.  Every status-returning leaf wrapper (\<open>__einit\<close>, \<open>__eremove\<close>, \<open>__etrack\<close>,
  \<open>__eldu\<close>, \<open>__eblock\<close>, \<open>__ewb\<close>) returns the hardware's status code when the instruction
  retires (0 or a positive code, without the fault flag) and the flagged trap number when
  it faults, so the fault flag is set in the result exactly when a fault occurred.  The
  hardware's status codes are taken to lie in \<open>[0, 2 ^ 30)\<close>.
\<close>

theorem status_leaves_tri_state:
  assumes codes: "\<And>rax ins h s b h'. hw rax ins h = (Completed s b, h') \<Longrightarrow> 0 \<le> sint s \<and> sint s < 2 ^ 30"
  shows "status_leaf_result (fst (hw (leaf_nr EINIT) [(RBX, sigstruct), (RCX, secs), (RDX, einittoken)] h))
           (fst (einit hw sigstruct einittoken secs h))
       \<and> status_leaf_result (fst (hw (leaf_nr EREMOVE) [(RCX, addr)] h)) (fst (eremove hw addr h))
       \<and> status_leaf_result (fst (hw (leaf_nr ETRACK) [(RCX, addr)] h)) (fst (etrack hw addr h))
       \<and> status_leaf_result (fst (hw (leaf_nr ELDU) [(RBX, pginfo), (RCX, addr), (RDX, va)] h))
           (fst (eldu hw pginfo addr va h))
       \<and> status_leaf_result (fst (hw (leaf_nr EBLOCK) [(RCX, addr)] h)) (fst (eblock hw addr h))
       \<and> status_leaf_result (fst (hw (leaf_nr EWB) [(RBX, pginfo), (RCX, addr), (RDX, va)] h))
           (fst (ewb hw pginfo addr va h))"
  unfolding einit_def eremove_def etrack_def eldu_def eblock_def ewb_def encls_ret_1_def encls_ret_3_def
  by (intro conjI encls_ret_N_contract codes)

theorem status_leaves_tri_state_witness:
  "status_leaf_result (Completed 11 0) (fst (ewb example_hw 0x2000 0x3000 0x4000 (0::nat)))
   \<and> fst (ewb example_hw 0x2000 0x3000 0x4000 (0::nat)) = 11
   \<and> status_leaf_result (Faulted 14 0) (fst (eremove example_hw 0x3000 (0::nat)))
   \<and> fst (eremove example_hw 0x3000 (0::nat)) = 0x4000000E
   \<and> fst (einit example_hw 0x5000 0x6000 0x7000 (0::nat)) = 0"
proof -
  have codes: "0 \<le> sint s \<and> sint s < 2 ^ 30"
    if "example_hw rax ins h = (Completed s b, h')" for rax ins h s b h'
    using that by (auto simp add: example_hw_def split: if_splits)
  have "status_leaf_result
          (fst (example_hw (leaf_nr EINIT) [(RBX, 0x5000), (RCX, 0x7000), (RDX, 0x6000)] 0))
          (fst (einit example_hw 0x5000 0x6000 0x7000 0))
      \<and> status_leaf_result (fst (example_hw (leaf_nr EREMOVE) [(RCX, 0x3000)] 0))
          (fst (eremove example_hw 0x3000 0))
      \<and> status_leaf_result (fst (example_hw (leaf_nr ETRACK) [(RCX, 0x3000)] 0))
          (fst (etrack example_hw 0x3000 0))
      \<and> status_leaf_result
          (fst (example_hw (leaf_nr ELDU) [(RBX, 0x2000), (RCX, 0x3000), (RDX, 0x4000)] 0))
          (fst (eldu example_hw 0x2000 0x3000 0x4000 0))
      \<and> status_leaf_result (fst (example_hw (leaf_nr EBLOCK) [(RCX, 0x3000)] 0))
          (fst (eblock example_hw 0x3000 0))
      \<and> status_leaf_result
          (fst (example_hw (leaf_nr EWB) [(RBX, 0x2000), (RCX, 0x3000), (RDX, 0x4000)] 0))
          (fst (ewb example_hw 0x2000 0x3000 0x4000 0))"
    by (rule status_leaves_tri_state) (rule codes)
  then show ?thesis
    by (auto simp add: example_hw_def status_leaf_result_def encls_fault_def ENCLS_FAULT_FLAG_def)
qed

text \<open>
  Claim C5.  Every no-status leaf wrapper (\<open>__ecreate\<close>, \<open>__eadd\<close>, \<open>__eextend\<close>,
  \<open>__edbgwr\<close>, \<open>__epa\<close>, \<open>__edbgrd\<close>) returns exactly 0 when the instruction retires,
  whatever the instruction left in EAX, and the flagged trap number when it faults; the
  result is never a non-zero value without the fault flag.
\<close>

theorem no_status_leaves_zero_or_fault:
  "no_status_leaf_result (fst (hw (leaf_nr ECREATE) [(RBX, pginfo), (RCX, secs)] h))
       (fst (ecreate hw pginfo secs h))
   \<and> no_status_leaf_result (fst (hw (leaf_nr EADD) [(RBX, pginfo), (RCX, addr)] h))
       (fst (eadd hw pginfo addr h))
   \<and> no_status_leaf_result (fst (hw (leaf_nr EEXTEND) [(RBX, secs), (RCX, addr)] h))
       (fst (eextend hw secs addr h))
   \<and> no_status_leaf_result (fst (hw (leaf_nr EDGBWR) [(RBX, mem data), (RCX, addr)] h))
       (fst (edbgwr hw addr data mem h))
   \<and> no_status_leaf_result (fst (hw (leaf_nr EPA) [(RBX, page_type_va), (RCX, addr)] h))
       (fst (epa hw page_type_va addr h))
   \<and> no_status_leaf_result (fst (hw (leaf_nr EDGBRD) [(RCX, addr)] h))
       (fst (fst (edbgrd hw addr data mem h)))
   \<and> (\<forall>ret \<in> {fst (ecreate hw pginfo secs h), fst (eadd hw pginfo addr h),
                fst (eextend hw secs addr h), fst (edbgwr hw addr data mem h),
                fst (epa hw page_type_va addr h), fst (fst (edbgrd hw addr data mem h))}.
         ret = 0 \<or> encls_fault ret)"
proof -
  have c: "no_status_leaf_result (fst (hw (leaf_nr ECREATE) [(RBX, pginfo), (RCX, secs)] h))
       (fst (ecreate hw pginfo secs h))"
    by (simp add: ecreate_def encls_2_ret encls_N_contract)
  have a: "no_status_leaf_result (fst (hw (leaf_nr EADD) [(RBX, pginfo), (RCX, addr)] h))
       (fst (eadd hw pginfo addr h))"
    by (simp add: eadd_def encls_2_ret encls_N_contract)
  have e: "no_status_leaf_result (fst (hw (leaf_nr EEXTEND) [(RBX, secs), (RCX, addr)] h))
       (fst (eextend hw secs addr h))"
    by (simp add: eextend_def encls_2_ret encls_N_contract)
  have w: "no_status_leaf_result (fst (hw (leaf_nr EDGBWR) [(RBX, mem data), (RCX, addr)] h))
       (fst (edbgwr hw addr data mem h))"
    by (simp add: edbgwr_def encls_2_ret encls_N_contract)
  have p: "no_status_leaf_result (fst (hw (leaf_nr EPA) [(RBX, page_type_va), (RCX, addr)] h))
       (fst (epa hw page_type_va addr h))"
    by (simp add: epa_def encls_2_ret encls_N_contract)
  have r: "no_status_leaf_result (fst (hw (leaf_nr EDGBRD) [(RCX, addr)] h))
       (fst (fst (edbgrd hw addr data mem h)))"
    by (simp only: edbgrd_ret encls_N_contract)
  show ?thesis
    using c a e w p r
      no_status_zero_or_fault [OF c] no_status_zero_or_fault [OF a] no_status_zero_or_fault [OF e]
      no_status_zero_or_fault [OF w] no_status_zero_or_fault [OF p] no_status_zero_or_fault [OF r]
    by simp
qed

theorem no_status_leaves_zero_or_fault_witness:
  "fst (ecreate example_hw 0x2000 0x3000 (0::nat)) = 0
   \<and> fst (fst (edbgrd example_hw 0x1008 0x10 (\<lambda>a. 0) (0::nat))) = 0x4000000D"
  using no_status_leaves_zero_or_fault [where hw = example_hw and pginfo = "0x2000" and secs = "0x3000"
          and h = 0 and addr = "0x1008" and mem = "\<lambda>a. 0" and data = "0x10"]
  by (simp add: example_hw_def no_status_leaf_result_def ENCLS_FAULT_FLAG_def)

text \<open>
  Claim C6.  The retry policy of initialization uses the constants 20, 50 and 20.  When
  fewer than 70 consecutive attempts meet contention and the next one succeeds, \<open>sgx_einit\<close>
  succeeds after exactly that many attempts plus one, within the budget of 70, having slept
  20 before each attempt after the twentieth.  When the first 70 attempts all meet
  contention, it fails with \<open>InitRetriesExhausted\<close> after exactly 70 attempts.
\<close>

theorem einit_retry_budget:
  assumes "\<not> contended 0"
  shows "SGX_EINIT_SPIN_COUNT = 20 \<and> SGX_EINIT_SLEEP_COUNT = 50 \<and> SGX_EINIT_SLEEP_TIME = 20
    \<and> (\<forall>N<70. (\<forall>k<N. contended (attempt_ret (einit hw sigstruct token secs) k h))
                \<and> attempt_ret (einit hw sigstruct token secs) N h = 0 \<longrightarrow>
           result (sgx_einit hw contended sigstruct token secs lepubkeyhash h) = Inr ()
           \<and> attempts (sgx_einit hw contended sigstruct token secs lepubkeyhash h) = Suc N
           \<and> attempts (sgx_einit hw contended sigstruct token secs lepubkeyhash h) \<le> 70
           \<and> slept (sgx_einit hw contended sigstruct token secs lepubkeyhash h) = 20 * (Suc N - 20))
    \<and> ((\<forall>k<70. contended (attempt_ret (einit hw sigstruct token secs) k h)) \<longrightarrow>
           result (sgx_einit hw contended sigstruct token secs lepubkeyhash h) = Inl InitRetriesExhausted
           \<and> attempts (sgx_einit hw contended sigstruct token secs lepubkeyhash h) = 70
           \<and> slept (sgx_einit hw contended sigstruct token secs lepubkeyhash h) = 20 * 50)"
proof -
  have vals: "SGX_EINIT_SPIN_COUNT = 20" "SGX_EINIT_SLEEP_COUNT = 50" "SGX_EINIT_SLEEP_TIME = 20"
    by (simp_all add: SGX_EINIT_SPIN_COUNT_def SGX_EINIT_SLEEP_COUNT_def SGX_EINIT_SLEEP_TIME_def)
  have ok: "result (sgx_einit hw contended sigstruct token secs lepubkeyhash h) = Inr ()
           \<and> attempts (sgx_einit hw contended sigstruct token secs lepubkeyhash h) = Suc N
           \<and> attempts (sgx_einit hw contended sigstruct token secs lepubkeyhash h) \<le> 70
           \<and> slept (sgx_einit hw contended sigstruct token secs lepubkeyhash h) = 20 * (Suc N - 20)"
    if "N < 70" "\<forall>k<N. contended (attempt_ret (einit hw sigstruct token secs) k h)"
       "attempt_ret (einit hw sigstruct token secs) N h = 0" for N
  proof -
    from that(1) have "N < SGX_EINIT_SPIN_COUNT + SGX_EINIT_SLEEP_COUNT" by (simp add: vals)
    from sgx_einit_success [OF that(2) that(3) assms this, of lepubkeyhash] that(1)
    show ?thesis by (simp add: vals)
  qed
  have ex: "result (sgx_einit hw contended sigstruct token secs lepubkeyhash h) = Inl InitRetriesExhausted
           \<and> attempts (sgx_einit hw contended sigstruct token secs lepubkeyhash h) = 70
           \<and> slept (sgx_einit hw contended sigstruct token secs lepubkeyhash h) = 20 * 50"
    if "\<forall>k<70. contended (attempt_ret (einit hw sigstruct token secs) k h)"
  proof -
    from that have "\<forall>k<SGX_EINIT_SPIN_COUNT + SGX_EINIT_SLEEP_COUNT.
                      contended (attempt_ret (einit hw sigstruct token secs) k h)"
      by (simp add: vals)
    from sgx_einit_exhausted [OF this, of lepubkeyhash] show ?thesis by (simp add: vals)
  qed
  from vals ok ex show ?thesis by blast
qed

theorem einit_retry_budget_witness:
  "result (sgx_einit (busy_hw 25) (\<lambda>r. r = 128) 0x5000 0x6000 0x7000 0x8000 0) = Inr ()
   \<and> attempts (sgx_einit (busy_hw 25) (\<lambda>r. r = 128) 0x5000 0x6000 0x7000 0x8000 0) = 26
   \<and> slept (sgx_einit (busy_hw 25) (\<lambda>r. r = 128) 0x5000 0x6000 0x7000 0x8000 0) = 120
   \<and> result (sgx_einit (busy_hw 70) (\<lambda>r. r = 128) 0x5000 0x6000 0x7000 0x8000 0)
       = Inl InitRetriesExhausted
   \<and> attempts (sgx_einit (busy_hw 70) (\<lambda>r. r = 128) 0x5000 0x6000 0x7000 0x8000 0) = 70"
proof -
  have nc: "(0 :: c_int) \<noteq> 128" by simp
  have a: "(25::nat) < 70" by simp
  have b: "(\<forall>k<25. attempt_ret (einit (busy_hw 25) 0x5000 0x6000 0x7000) k 0 = 128)
           \<and> attempt_ret (einit (busy_hw 25) 0x5000 0x6000 0x7000) 25 0 = 0"
    by (simp add: attempt_ret_busy_hw)
  have d: "\<forall>k<70. attempt_ret (einit (busy_hw 70) 0x5000 0x6000 0x7000) k 0 = 128"
    by (simp add: attempt_ret_busy_hw)
  note t25 = einit_retry_budget [where contended = "\<lambda>r. r = 128" and hw = "busy_hw 25"
      and sigstruct = "0x5000" and token = "0x6000" and secs = "0x7000" and h = 0
      and lepubkeyhash = "0x8000", OF nc]
  note t70 = einit_retry_budget [where contended = "\<lambda>r. r = 128" and hw = "busy_hw 70"
      and sigstruct = "0x5000" and token = "0x6000" and secs = "0x7000" and h = 0
      and lepubkeyhash = "0x8000", OF nc]
  note s25 = t25 [THEN conjunct2, THEN conjunct2, THEN conjunct2, THEN conjunct1, rule_format,
      OF a b]
  note s70 = t70 [THEN conjunct2, THEN conjunct2, THEN conjunct2, THEN conjunct2, THEN mp,
      OF d]
  from s25 s70 show ?thesis by simp
qed

text \<open>
  Claim C7.  Whenever \<open>__edbgrd\<close> returns 0, the instruction retired and the word it left
  in RBX has been stored at \<open>data\<close>.
\<close>

theorem edbgrd_success_stores_word:
  assumes "fst (fst (edbgrd hw addr data mem h)) = 0"
  shows "\<exists>eax rbx. fst (hw (leaf_nr EDGBRD) [(RCX, addr)] h) = Completed eax rbx
           \<and> snd (fst (edbgrd hw addr data mem h)) = mem(data := rbx)
           \<and> snd (fst (edbgrd hw addr data mem h)) data = rbx"
proof -
  from edbgrd_cases [of hw addr h data mem] assms show ?thesis
    by (auto simp add: or_flag_nonzero)
qed

theorem edbgrd_success_stores_word_witness:
  "fst (fst (edbgrd example_hw 0x1000 0x10 (\<lambda>a. 0) (0::nat))) = 0
   \<and> snd (fst (edbgrd example_hw 0x1000 0x10 (\<lambda>a. 0) (0::nat))) 0x10 = 0xABCD"
proof -
  have z: "fst (fst (edbgrd example_hw 0x1000 0x10 (\<lambda>a. 0) (0::nat))) = 0"
    by (simp add: edbgrd_def encls_1_1_def encls_N_def example_hw_def)
  from edbgrd_success_stores_word [OF z] z show ?thesis
    by (auto simp add: example_hw_def)
qed

text \<open>
  Claim C8, as stated, at the raw result \<open>0xC000000E\<close> on a CPU with SGX2 and the x86 trap
  numbers 13 and 14: the value is negative with magnitude below \<open>2 ^ 30\<close>, it takes the
  fault branch and its low 30 bits equal the benign trap number 14, yet \<open>encls_failed\<close> is
  true.
\<close>

theorem negative_code_low_bits_counterexample:
  "sint (0xC000000E :: c_int) < 0 \<and> - (2 ^ 30) < sint (0xC000000E :: c_int)
   \<and> encls_fault 0xC000000E
   \<and> take_bit 30 (0xC000000E :: c_int)
       = epcm_trapnr \<lparr>boot_cpu_has_SGX2 = True, X86_TRAP_GP = 13, X86_TRAP_PF = 14\<rparr>
   \<and> encls_failed \<lparr>boot_cpu_has_SGX2 = True, X86_TRAP_GP = 13, X86_TRAP_PF = 14\<rparr> 0xC000000E"
  by (simp add: encls_failed_def encls_fault_def epcm_trapnr_def ENCLS_TRAPNR_def ENCLS_FAULT_FLAG_def)

text \<open>
  Claim C8, amended.  Every negative raw result \<open>r\<close> with magnitude below \<open>2 ^ 30\<close> takes
  the fault branch, so \<open>encls_failed\<close> is true exactly when \<open>ENCLS_TRAPNR r\<close> differs from
  the benign trap number.  \<open>ENCLS_TRAPNR\<close> clears bit 30 only, so \<open>ENCLS_TRAPNR r\<close> is still
  negative; whenever the benign trap number is non-negative, \<open>encls_failed r\<close> is true.
\<close>

theorem negative_code_is_failure:
  fixes r :: c_int
  assumes "sint r < 0" and "- (2 ^ 30) < sint r"
  shows "encls_fault r
         \<and> (encls_failed cpu r \<longleftrightarrow> ENCLS_TRAPNR r \<noteq> epcm_trapnr cpu)
         \<and> sint (ENCLS_TRAPNR r) < 0
         \<and> (0 \<le> sint (epcm_trapnr cpu) \<longrightarrow> encls_failed cpu r)"
proof -
  from assms have b: "bit r 30" "bit r 31" using neg_bits [of r] by simp_all
  have f: "encls_fault r" using b(1) by (simp add: encls_fault_bit)
  have "bit (ENCLS_TRAPNR r) 31" using b(2) by (simp add: trapnr_bit)
  then have n: "sint (ENCLS_TRAPNR r) < 0" using bit_last_iff [of "ENCLS_TRAPNR r"] by simp
  have e: "encls_failed cpu r \<longleftrightarrow> ENCLS_TRAPNR r \<noteq> epcm_trapnr cpu"
    using f by (simp add: encls_failed_def)
  have "ENCLS_TRAPNR r \<noteq> epcm_trapnr cpu" if "0 \<le> sint (epcm_trapnr cpu)"
    using that n by auto
  with f n e show ?thesis by simp
qed

theorem negative_code_is_failure_witness:
  "sint (- 14 :: c_int) < 0 \<and> - (2 ^ 30) < sint (- 14 :: c_int)
   \<and> 0 \<le> sint (epcm_trapnr \<lparr>boot_cpu_has_SGX2 = True, X86_TRAP_GP = 13, X86_TRAP_PF = 14\<rparr>)
   \<and> encls_failed \<lparr>boot_cpu_has_SGX2 = True, X86_TRAP_GP = 13, X86_TRAP_PF = 14\<rparr> (- 14)"
proof -
  have a: "sint (- 14 :: c_int) < 0" by simp
  have b: "- (2 ^ 30) < sint (- 14 :: c_int)" by simp
  have c: "0 \<le> sint (epcm_trapnr \<lparr>boot_cpu_has_SGX2 = True, X86_TRAP_GP = 13, X86_TRAP_PF = 14\<rparr>)"
    by (simp add: epcm_trapnr_def)
  from negative_code_is_failure [OF a b, of "\<lparr>boot_cpu_has_SGX2 = True, X86_TRAP_GP = 13, X86_TRAP_PF = 14\<rparr>"] c
  have "encls_failed \<lparr>boot_cpu_has_SGX2 = True, X86_TRAP_GP = 13, X86_TRAP_PF = 14\<rparr> (- 14)"
    by blast
  with a b c show ?thesis by blast
qed

text \<open>
  Claim C9.  Whenever \<open>__edbgrd\<close> returns a non-zero result, the result carries the fault
  flag, the instruction faulted, and kernel memory, \<open>*data\<close> included, is unchanged.
\<close>

theorem edbgrd_failure_keeps_data:
  assumes "fst (fst (edbgrd hw addr data mem h)) \<noteq> 0"
  shows "snd (fst (edbgrd hw addr data mem h)) = mem
         \<and> encls_fault (fst (fst (edbgrd hw addr data mem h)))
         \<and> (\<exists>t rbx. fst (hw (leaf_nr EDGBRD) [(RCX, addr)] h) = Faulted t rbx)"
  using edbgrd_cases [of hw addr h data mem] assms by (auto simp add: fault_or_flag)

theorem edbgrd_failure_keeps_data_witness:
  "fst (fst (edbgrd example_hw 0x1008 0x10 (\<lambda>a. 7) (0::nat))) \<noteq> 0
   \<and> snd (fst (edbgrd example_hw 0x1008 0x10 (\<lambda>a. 7) (0::nat))) 0x10 = 7"
proof -
  have nz: "fst (fst (edbgrd example_hw 0x1008 0x10 (\<lambda>a. 7) (0::nat))) \<noteq> 0"
    by (simp add: edbgrd_def encls_1_1_def encls_N_def example_hw_def ENCLS_FAULT_FLAG_def)
  from edbgrd_failure_keeps_data [OF nz] nz show ?thesis by simp
qed

text \<open>
  Claim C10.  For every trap number \<open>t\<close> with bit 30 clear,
  \<open>ENCLS_TRAPNR (t OR ENCLS_FAULT_FLAG) = t\<close>; in particular \<open>ENCLS_TRAPNR\<close> recovers the
  trap number from what the fixup path of \<open>__encls_ret_N\<close> and \<open>__encls_N\<close> returns.
\<close>

theorem trapnr_of_fault_encoding:
  assumes "\<not> bit t 30"
  shows "ENCLS_TRAPNR (t OR ENCLS_FAULT_FLAG) = t
         \<and> (fst (hw rax ins h) = Faulted t b \<longrightarrow>
              ENCLS_TRAPNR (fst (encls_ret_N hw rax ins h)) = t
              \<and> ENCLS_TRAPNR (fst (fst (encls_N hw rax ins h))) = t)"
  using trapnr_roundtrip [OF assms]
  by (cases "hw rax ins h") (auto simp add: encls_ret_N_def encls_N_def)

theorem trapnr_of_fault_encoding_witness:
  "\<not> bit (14 :: c_int) 30
   \<and> ENCLS_TRAPNR (14 OR ENCLS_FAULT_FLAG) = 14
   \<and> fst (example_hw (leaf_nr EREMOVE) [(RCX, 0x3000)] (0::nat)) = Faulted 14 0
   \<and> ENCLS_TRAPNR (fst (eremove example_hw 0x3000 (0::nat))) = 14"
proof -
  have a: "\<not> bit (14 :: c_int) 30" by simp
  have f: "fst (example_hw (leaf_nr EREMOVE) [(RCX, 0x3000)] (0::nat)) = Faulted 14 0"
    by (simp add: example_hw_def)
  from trapnr_of_fault_encoding [OF a, of example_hw "leaf_nr EREMOVE" "[(RCX, 0x3000)]" 0 0] a f
  show ?thesis by (simp add: eremove_def encls_ret_1_def)
qed

end
